theory Spec2Isabelle
  imports Complex_Main
begin

unbundle bit_operations_syntax

section \<open>Python values, exceptions and built-ins used by the program\<close>

text \<open>
  Strings are lists of 8-bit characters, read as the code points 0..255 of a Python
  \<open>str\<close>. Python integers are \<open>int\<close>. Python floats are modelled by their exact
  value as a \<open>real\<close>; rounding to binary64 is outside the model (in the peak
  detection the arithmetic operations are parameters). An exception carries the fixed
  part of its message; the argument that Python quotes after it is left out.
\<close>

datatype py_exn =
    KeyError string
  | ValueError string
  | IndexError
  | ZeroDivisionError
  | AttributeError
  | RecursionError

datatype py_float = Finite real | PosInf | NegInf | NaN

datatype py_num = IntV int | FloatV py_float

datatype py_val = PyInt int | PyStr string

definition CR :: char where "CR = CHR 0x0D"
definition LF :: char where "LF = CHR 0x0A"

definition ord :: "char \<Rightarrow> nat" where
  "ord c = of_char c"

definition is_digit :: "char \<Rightarrow> bool" where
  "is_digit c = (48 \<le> ord c \<and> ord c \<le> 57)"

definition digit_char :: "nat \<Rightarrow> char" where
  "digit_char d = char_of (48 + d)"

text \<open>\<open>str(n)\<close> for a Python int: decimal digits, with a minus sign when negative.\<close>

fun nat_digits :: "nat \<Rightarrow> string" where
  "nat_digits n = (if n < 10 then [digit_char n] else nat_digits (n div 10) @ [digit_char (n mod 10)])"

declare nat_digits.simps [simp del]

definition int_str :: "int \<Rightarrow> string" where
  "int_str i = (if i < 0 then CHR ''-'' # nat_digits (nat (- i)) else nat_digits (nat i))"

definition py_str :: "py_val \<Rightarrow> string" where
  "py_str v = (case v of PyInt i \<Rightarrow> int_str i | PyStr s \<Rightarrow> s)"

text \<open>
  \<open>template.format(**kwargs)\<close> for templates whose replacement fields are plain
  \<open>{name}\<close>: literal text is copied, each field is replaced by \<open>str\<close> of the keyword
  argument of that name, and the first field without an argument raises \<open>KeyError\<close>.
  The second argument is the field name read so far (reversed) while inside braces.
\<close>

fun format_go :: "string \<Rightarrow> string option \<Rightarrow> (string \<rightharpoonup> py_val) \<Rightarrow> py_exn + string" where
  "format_go [] None kw = Inr []"
| "format_go [] (Some nm) kw = Inl (ValueError ''expected } before end of string'')"
| "format_go (c # cs) None kw =
     (if c = CHR ''{'' then format_go cs (Some []) kw
      else (case format_go cs None kw of Inl e \<Rightarrow> Inl e | Inr r \<Rightarrow> Inr (c # r)))"
| "format_go (c # cs) (Some nm) kw =
     (if c = CHR ''}'' then
        (case kw (rev nm) of
           None \<Rightarrow> Inl (KeyError (rev nm))
         | Some v \<Rightarrow> (case format_go cs None kw of Inl e \<Rightarrow> Inl e | Inr r \<Rightarrow> Inr (py_str v @ r)))
      else format_go cs (Some (c # nm)) kw)"

definition py_format :: "string \<Rightarrow> (string \<rightharpoonup> py_val) \<Rightarrow> py_exn + string" where
  "py_format template kw = format_go template None kw"

text \<open>\<open>s.split(sep)\<close> with a one-character separator: never the empty list.\<close>

fun split_on :: "char \<Rightarrow> string \<Rightarrow> string list" where
  "split_on sep [] = [[]]"
| "split_on sep (c # cs) =
     (if c = sep then [] # split_on sep cs
      else (case split_on sep cs of [] \<Rightarrow> [[c]] | w # ws \<Rightarrow> (c # w) # ws))"

text \<open>\<open>s.split(sep, 1)\<close>: at most one split, at the first separator.\<close>

definition split_once :: "char \<Rightarrow> string \<Rightarrow> string list" where
  "split_once sep s =
     (if sep \<in> set s then [takeWhile (\<lambda>c. c \<noteq> sep) s, tl (dropWhile (\<lambda>c. c \<noteq> sep) s)]
      else [s])"

text \<open>
  White space: \<open>str.strip()\<close> removes the characters for which \<open>str.isspace\<close> holds;
  \<open>int()\<close> and \<open>float()\<close> skip a smaller set (the file, group, record and unit
  separators 28..31 are not skipped by them).
\<close>

definition is_space :: "char \<Rightarrow> bool" where
  "is_space c = (ord c \<in> {9, 10, 11, 12, 13, 28, 29, 30, 31, 32, 133, 160})"

definition is_num_space :: "char \<Rightarrow> bool" where
  "is_num_space c = (ord c \<in> {9, 10, 11, 12, 13, 32, 133, 160})"

definition strip_by :: "(char \<Rightarrow> bool) \<Rightarrow> string \<Rightarrow> string" where
  "strip_by p s = rev (dropWhile p (rev (dropWhile p s)))"

definition py_strip :: "string \<Rightarrow> string" where
  "py_strip s = strip_by is_space s"

text \<open>A leading sign: \<open>True\<close> for minus, and the rest of the text.\<close>

definition take_sign :: "string \<Rightarrow> bool \<times> string" where
  "take_sign s =
     (case s of
        [] \<Rightarrow> (False, [])
      | c # r \<Rightarrow> if c = CHR ''-'' then (True, r) else if c = CHR ''+'' then (False, r) else (False, s))"

definition digit_value :: "char \<Rightarrow> nat option" where
  "digit_value c =
     (let n = ord c in
      if 48 \<le> n \<and> n \<le> 57 then Some (n - 48)
      else if 97 \<le> n \<and> n \<le> 102 then Some (n - 87)
      else if 65 \<le> n \<and> n \<le> 70 then Some (n - 55)
      else None)"

definition is_base_digit :: "nat \<Rightarrow> char \<Rightarrow> bool" where
  "is_base_digit base c = (case digit_value c of None \<Rightarrow> False | Some d \<Rightarrow> d < base)"

text \<open>
  Digits with single underscores between them: as the scan of a Python integer
  literal, \<open>prev\<close> being the character before.
\<close>

fun int_body_ok :: "nat \<Rightarrow> char \<Rightarrow> string \<Rightarrow> bool" where
  "int_body_ok base prev [] = (prev \<noteq> CHR ''_'')"
| "int_body_ok base prev (c # cs) =
     (if c = CHR ''_'' then prev \<noteq> CHR ''_'' \<and> int_body_ok base c cs
      else is_base_digit base c \<and> int_body_ok base c cs)"

definition digits_value :: "nat \<Rightarrow> string \<Rightarrow> nat" where
  "digits_value base ds = foldl (\<lambda>acc c. acc * base + (case digit_value c of None \<Rightarrow> 0 | Some d \<Rightarrow> d)) 0 ds"

text \<open>
  \<open>int(s, base)\<close> for base 10 and base 16: white space around, an optional sign, for
  base 16 an optional \<open>0x\<close>/\<open>0X\<close> (one underscore may follow it), then at least one
  digit. Anything else raises \<open>ValueError\<close>, and so does a decimal text of more digits
  than \<open>sys.get_int_max_str_digits()\<close>, 4300 unless it was changed (there is no such
  limit for base 16).
\<close>

definition max_str_digits :: nat where
  "max_str_digits = 4300"

definition py_int :: "nat \<Rightarrow> string \<Rightarrow> py_exn + int" where
  "py_int base s =
     (let (neg, t1) = take_sign (strip_by is_num_space s);
          t2 = (case t1 of
                  c0 # c1 # r \<Rightarrow>
                    if base = 16 \<and> c0 = CHR ''0'' \<and> (c1 = CHR ''x'' \<or> c1 = CHR ''X'')
                    then (case r of [] \<Rightarrow> [] | u # r' \<Rightarrow> if u = CHR ''_'' then r' else r)
                    else t1
                | _ \<Rightarrow> t1)
      in if t2 = [] \<or> hd t2 = CHR ''_'' \<or> \<not> int_body_ok base (CHR 0x00) t2
         then Inl (ValueError ''invalid literal for int()'')
         else if base = 10 \<and> max_str_digits < length (filter (\<lambda>c. c \<noteq> CHR ''_'') t2)
         then Inl (ValueError ''Exceeds the limit for integer string conversion'')
         else (let v = int (digits_value base (filter (\<lambda>c. c \<noteq> CHR ''_'') t2))
               in Inr (if neg then - v else v)))"

text \<open>
  \<open>float(s)\<close>: white space around; underscores only between digits; an optional sign;
  then either digits with an optional point and an optional exponent (at least one digit
  before the exponent, at least one in it), or \<open>inf\<close>, \<open>infinity\<close>, \<open>nan\<close> in any case.
\<close>

fun underscores_ok :: "char \<Rightarrow> string \<Rightarrow> bool" where
  "underscores_ok prev [] = (prev \<noteq> CHR ''_'')"
| "underscores_ok prev (c # cs) =
     (if c = CHR ''_'' then is_digit prev \<and> underscores_ok c cs
      else (prev = CHR ''_'' \<longrightarrow> is_digit c) \<and> underscores_ok c cs)"

definition scale10 :: "real \<Rightarrow> int \<Rightarrow> real" where
  "scale10 m e = (if 0 \<le> e then m * 10 ^ nat e else m / 10 ^ nat (- e))"

definition parse_decimal :: "string \<Rightarrow> real option" where
  "parse_decimal s =
     (let ip = takeWhile is_digit s;
          r1 = dropWhile is_digit s;
          (fp, r2) = (case r1 of
                        [] \<Rightarrow> ([], [])
                      | c # r \<Rightarrow> if c = CHR ''.'' then (takeWhile is_digit r, dropWhile is_digit r)
                                   else ([], r1));
          m = real (digits_value 10 (ip @ fp))
      in if ip @ fp = [] then None
         else (case r2 of
                 [] \<Rightarrow> Some (scale10 m (- int (length fp)))
               | e # r3 \<Rightarrow>
                   if e = CHR ''e'' \<or> e = CHR ''E'' then
                     (let (eneg, ds) = take_sign r3
                      in if ds \<noteq> [] \<and> list_all is_digit ds
                         then Some (scale10 m ((if eneg then - int (digits_value 10 ds)
                                                else int (digits_value 10 ds)) - int (length fp)))
                         else None)
                   else None))"

definition lower_ascii :: "char \<Rightarrow> char" where
  "lower_ascii c = (if 65 \<le> ord c \<and> ord c \<le> 90 then char_of (ord c + 32) else c)"

definition py_float :: "string \<Rightarrow> py_exn + py_float" where
  "py_float s =
     (let t = strip_by is_num_space s
      in if \<not> underscores_ok (CHR 0x00) t then Inl (ValueError ''could not convert string to float'')
         else (let (neg, body) = take_sign (filter (\<lambda>c. c \<noteq> CHR ''_'') t)
               in case parse_decimal body of
                    Some v \<Rightarrow> Inr (Finite (if neg then - v else v))
                  | None \<Rightarrow>
                      (let w = map lower_ascii body
                       in if w = ''inf'' \<or> w = ''infinity'' then Inr (if neg then NegInf else PosInf)
                          else if w = ''nan'' then Inr NaN
                          else Inl (ValueError ''could not convert string to float''))))"

text \<open>The first exception of a list of results, or all the values.\<close>

fun collect :: "(py_exn + 'a) list \<Rightarrow> py_exn + 'a list" where
  "collect [] = Inr []"
| "collect (Inl e # rs) = Inl e"
| "collect (Inr v # rs) = (case collect rs of Inl e \<Rightarrow> Inl e | Inr vs \<Rightarrow> Inr (v # vs))"

section \<open>protocol\_handler.py: ProtocolHandler\<close>

definition COMMAND_SET :: "string \<rightharpoonup> string" where
  "COMMAND_SET = map_of
     [(''set_wavelength'', ''WL {value}''),
      (''read_wavelength'', ''WL?''),
      (''read_spectrum'', ''SPT?''),
      (''read_intensity'', ''INT?''),
      (''set_integration'', ''INTTIME {value}''),
      (''read_integration'', ''INTTIME?''),
      (''calibration'', ''CAL {mode}''),
      (''get_status'', ''STAT?''),
      (''set_average'', ''AVG {value}''),
      (''read_average'', ''AVG?''),
      (''reset_device'', ''RST''),
      (''get_version'', ''VER?'')]"

definition checksum_of :: "string \<Rightarrow> nat" where
  "checksum_of raw = sum_list (map ord raw) mod 256"

definition hex_char :: "nat \<Rightarrow> char" where
  "hex_char d = (if d < 10 then char_of (48 + d) else char_of (55 + d))"

text \<open>The format \<open>{checksum:02X}\<close> of a value below 256.\<close>

definition hex02X :: "nat \<Rightarrow> string" where
  "hex02X n = [hex_char (n div 16), hex_char (n mod 16)]"

definition build_command :: "string \<Rightarrow> (string \<rightharpoonup> py_val) \<Rightarrow> py_exn + string" where
  "build_command cmd_type kwargs =
     (case COMMAND_SET cmd_type of
        None \<Rightarrow> Inl (KeyError cmd_type)
      | Some template \<Rightarrow>
          (case py_format template kwargs of
             Inl e \<Rightarrow> Inl e
           | Inr raw_cmd \<Rightarrow>
               Inr (CHR ''$'' # raw_cmd @ CHR ''*'' # hex02X (checksum_of raw_cmd) @ [CR, LF])))"

text \<open>
  The response dictionaries. \<open>Valid command data\<close> is
  \<open>{'valid': True, 'command': .., 'data': ..}\<close>; \<open>Invalid error\<close> is
  \<open>{'valid': False, 'error': ..}\<close>. An error text is fixed, or a fixed prefix followed
  by \<open>str(e)\<close> of the exception caught.
\<close>

datatype error_text = Text string | Caught string py_exn

datatype payload_data =
    Value py_num
  | Spectrum "py_float list"
  | Intensity py_float
  | Status (ready: bool) (error: bool) (calibrating: bool) (measuring: bool)
  | Version string
  | CalStatus string
  | Raw string
  | DataError error_text

datatype response = Valid string payload_data | Invalid error_text

definition parse_payload :: "string \<Rightarrow> payload_data" where
  "parse_payload payload =
     (let parts = split_once (CHR '' '') payload;
          cmd = (case parts of [] \<Rightarrow> [] | p # _ \<Rightarrow> p);
          data = (case parts of _ # d # _ \<Rightarrow> d | _ \<Rightarrow> [])
      in if cmd \<in> set [''WL'', ''INTTIME'', ''AVG''] then
           (case (if CHR ''.'' \<in> set data then map_sum id FloatV (py_float data)
                  else map_sum id IntV (py_int 10 data)) of
              Inl e \<Rightarrow> DataError (Caught ''Data parsing error: '' e)
            | Inr v \<Rightarrow> Value v)
         else if cmd = ''SPT'' then
           (case collect (map py_float (split_on (CHR '','') data)) of
              Inl e \<Rightarrow> DataError (Caught ''Data parsing error: '' e)
            | Inr values \<Rightarrow> Spectrum values)
         else if cmd = ''INT'' then
           (case py_float data of
              Inl e \<Rightarrow> DataError (Caught ''Data parsing error: '' e)
            | Inr v \<Rightarrow> Intensity v)
         else if cmd = ''STAT'' then
           (case py_int 16 data of
              Inl e \<Rightarrow> DataError (Caught ''Data parsing error: '' e)
            | Inr status_code \<Rightarrow>
                Status (status_code AND 0x01 \<noteq> 0) (status_code AND 0x02 \<noteq> 0)
                       (status_code AND 0x04 \<noteq> 0) (status_code AND 0x08 \<noteq> 0))
         else if cmd = ''VER'' then Version (py_strip data)
         else if cmd = ''CAL'' then CalStatus (if data = ''OK'' then ''success'' else ''error'')
         else Raw payload)"

text \<open>\<open>response[1:-3]\<close>: from index 1 up to, not including, the third character from the end.\<close>

definition slice_1_m3 :: "string \<Rightarrow> string" where
  "slice_1_m3 s = drop 1 (take (length s - 3) s)"

text \<open>The guard \<open>not response.startswith('$') or '*' not in response\<close>.\<close>

definition bad_frame :: "string \<Rightarrow> bool" where
  "bad_frame response =
     (\<not> (case response of [] \<Rightarrow> False | c # _ \<Rightarrow> c = CHR ''$'') \<or> CHR ''*'' \<notin> set response)"

definition parse_response :: "string \<Rightarrow> response" where
  "parse_response response =
     (if bad_frame response
      then Invalid (Text ''Invalid frame format'')
      else (case split_on (CHR ''*'') (slice_1_m3 response) of
              [payload, checksum] \<Rightarrow>
                (let calculated_csum = int (checksum_of payload)
                 in case py_int 16 checksum of
                      Inl e \<Rightarrow> Invalid (Caught ''Parsing error: '' e)
                    | Inr c \<Rightarrow>
                        if calculated_csum \<noteq> c then Invalid (Text ''Checksum mismatch'')
                        else Valid (case split_on (CHR '' '') payload of [] \<Rightarrow> [] | w # _ \<Rightarrow> w)
                                   (parse_payload payload))
            | [_] \<Rightarrow> Invalid (Caught ''Parsing error: '' (ValueError ''not enough values to unpack''))
            | _ \<Rightarrow> Invalid (Caught ''Parsing error: '' (ValueError ''too many values to unpack''))))"

section \<open>async\_communication.py: CommunicationThread and AsyncCommunicator\<close>

text \<open>
  The thread object as \<open>send_command\<close> sees it: its flag and its queue of frames. The
  transport is written by the thread's run loop only, from the head of this queue.
\<close>

record CommunicationThread =
  running :: bool
  command_queue :: "string list"

datatype signal = ConnectionChanged bool | DataReceived response | ErrorOccurred string

record AsyncCommunicator =
  comm_thread :: "CommunicationThread option"
  connected_priv :: bool
  emitted :: "signal list"

definition add_command ::
  "string \<Rightarrow> (string \<rightharpoonup> py_val) \<Rightarrow> CommunicationThread \<Rightarrow> py_exn option \<times> CommunicationThread" where
  "add_command cmd_type kwargs t =
     (case build_command cmd_type kwargs of
        Inl e \<Rightarrow> (Some e, t)
      | Inr command \<Rightarrow> (None, t\<lparr>command_queue := command_queue t @ [command]\<rparr>))"

definition send_command ::
  "string \<Rightarrow> (string \<rightharpoonup> py_val) \<Rightarrow> AsyncCommunicator \<Rightarrow> py_exn option \<times> AsyncCommunicator" where
  "send_command cmd_type kwargs c =
     (case comm_thread c of
        None \<Rightarrow> (None, c)
      | Some t \<Rightarrow>
          if connected_priv c then
            (case add_command cmd_type kwargs t of (r, t') \<Rightarrow> (r, c\<lparr>comm_thread := Some t'\<rparr>))
          else (None, c))"

text \<open>\<open>AsyncCommunicator.__init__\<close>: no thread, not connected.\<close>

definition AsyncCommunicator_init :: AsyncCommunicator where
  "AsyncCommunicator_init = \<lparr>comm_thread = None, connected_priv = False, emitted = []\<rparr>"

section \<open>data\_acquisition.py: scans\<close>

datatype ScanMode = SINGLE | REPEAT | AUTO

record ScanConfig =
  start_wavelength :: real
  end_wavelength :: real
  step_size :: real
  mode :: ScanMode
  repeat_count :: int
  interval :: real

text \<open>
  What a scan does to the outside, in order: a call of the communicator's
  \<open>send_command\<close> with its keyword arguments, or an emission of \<open>scan_progress\<close>.
\<close>

datatype event = SendCommand string "(string \<times> real) list" | ScanProgress real

record DataAcquisition =
  current_scan :: "ScanConfig option"
  scan_data :: "real list"
  is_scanning :: bool
  scan_state :: string
  repeat_count_priv :: int
  auto_timer :: "int option"
  trace :: "event list"

text \<open>\<open>DataAcquisition.__init__\<close>.\<close>

definition DataAcquisition_init :: DataAcquisition where
  "DataAcquisition_init =
     \<lparr>current_scan = None, scan_data = [], is_scanning = False, scan_state = ''idle'',
      repeat_count_priv = 0, auto_timer = None, trace = []\<rparr>"

text \<open>\<open>int(x)\<close> of a float: truncation towards zero.\<close>

definition py_trunc :: "real \<Rightarrow> int" where
  "py_trunc x = (if 0 \<le> x then \<lfloor>x\<rfloor> else \<lceil>x\<rceil>)"

text \<open>
  \<open>np.linspace(start, stop, num)\<close>: \<open>num\<close> evenly spaced samples from \<open>start\<close> to
  \<open>stop\<close> inclusive; a single sample is \<open>start\<close>; a negative \<open>num\<close> raises.
\<close>

definition linspace :: "real \<Rightarrow> real \<Rightarrow> int \<Rightarrow> py_exn + real list" where
  "linspace start stop num =
     (if num < 0 then Inl (ValueError ''Number of samples must be non-negative'')
      else if num = 1 then Inr [start]
      else Inr (map (\<lambda>i. start + real i * ((stop - start) / real_of_int (num - 1))) [0..<nat num]))"

definition stop_scan :: "DataAcquisition \<Rightarrow> DataAcquisition" where
  "stop_scan s = s\<lparr>is_scanning := False\<rparr>"

definition handle_scan_complete :: "DataAcquisition \<Rightarrow> py_exn option \<times> DataAcquisition" where
  "handle_scan_complete s =
     (case current_scan s of
        None \<Rightarrow> (Some AttributeError, s)
      | Some cfg \<Rightarrow>
          if mode cfg = SINGLE then (None, stop_scan s)
          else if mode cfg = REPEAT then
            (if repeat_count_priv s \<ge> repeat_count cfg then (None, stop_scan s) else (None, s))
          else (None, s))"

text \<open>The body of the point loop: two commands, then the progress signal.\<close>

definition point_events :: "int \<Rightarrow> nat \<times> real \<Rightarrow> event list" where
  "point_events num_points p =
     (case p of (i, wl) \<Rightarrow>
        [SendCommand ''set_wavelength'' [(''value'', wl)],
         SendCommand ''read_intensity'' [],
         ScanProgress (real (i + 1) / real_of_int num_points)])"

fun scan_loop :: "int \<Rightarrow> (nat \<times> real) list \<Rightarrow> DataAcquisition \<Rightarrow> DataAcquisition" where
  "scan_loop num_points [] s = s"
| "scan_loop num_points (p # rest) s =
     (if \<not> is_scanning s then s
      else scan_loop num_points rest (s\<lparr>trace := trace s @ point_events num_points p\<rparr>))"

definition execute_single_scan :: "DataAcquisition \<Rightarrow> py_exn option \<times> DataAcquisition" where
  "execute_single_scan s =
     (case current_scan s of
        None \<Rightarrow> (None, s)
      | Some cfg \<Rightarrow>
          if step_size cfg = 0 then (Some ZeroDivisionError, s)
          else
            (let num_points = py_trunc ((end_wavelength cfg - start_wavelength cfg) / step_size cfg) + 1
             in case linspace (start_wavelength cfg) (end_wavelength cfg) num_points of
                  Inl e \<Rightarrow> (Some e, s)
                | Inr wavelengths \<Rightarrow>
                    (let s' = scan_loop num_points (enumerate 0 wavelengths) s
                     in if is_scanning s' then handle_scan_complete s' else (None, s'))))"

text \<open>The point loop and the completion handling leave the configuration and the repeat counter alone.\<close>

lemma scan_loop_keeps:
  "current_scan (scan_loop n ps s) = current_scan s \<and>
   repeat_count_priv (scan_loop n ps s) = repeat_count_priv s"
  by (induction ps arbitrary: s) auto

lemma execute_single_scan_keeps:
  "execute_single_scan s = (r, s') \<Longrightarrow>
   current_scan s' = current_scan s \<and> repeat_count_priv s' = repeat_count_priv s"
  by (auto simp: execute_single_scan_def handle_scan_complete_def stop_scan_def Let_def scan_loop_keeps
      split: option.splits if_splits sum.splits)

text \<open>
  \<open>_start_repeat_scan\<close> calls itself after each pass while the scan is still running, so
  every pass runs one call deeper than the pass before it, and the interpreter bounds the
  depth of nested calls (\<open>sys.getrecursionlimit()\<close>, 1000 unless it was changed). All the
  other calls of a scan have a depth that the configuration does not change. \<open>room\<close> is
  what the stack has left beyond the depth that a single-mode scan reaches: pass \<open>k\<close> of
  a repeat scan runs \<open>k\<close> frames deeper than that, so it fits when \<open>k \<le> room\<close>. With the
  limit \<open>L\<close>, \<open>start_scan\<close> running at depth \<open>d\<close> and the calls made by
  \<open>_execute_single_scan\<close> going \<open>c\<close> frames below it, \<open>room = L - d - 1 - c\<close> (at most 996
  for the default limit, since \<open>d \<ge> 2\<close> and \<open>c \<ge> 1\<close>). The pass that does not fit raises
  \<open>RecursionError\<close>, after the counter was incremented; which call of that pass raises it
  depends on the callees, and the model raises it before the first command of the pass.
  Reading \<open>self._current_scan.repeat_count\<close> with no configuration raises
  \<open>AttributeError\<close>.
\<close>

function start_repeat_scan :: "nat \<Rightarrow> DataAcquisition \<Rightarrow> py_exn option \<times> DataAcquisition" where
  "start_repeat_scan room s =
     (case current_scan s of
        None \<Rightarrow> (Some AttributeError, s)
      | Some cfg \<Rightarrow>
          if repeat_count_priv s < repeat_count cfg then
            (if room = 0 then (Some RecursionError, s\<lparr>repeat_count_priv := repeat_count_priv s + 1\<rparr>)
             else
               (case execute_single_scan (s\<lparr>repeat_count_priv := repeat_count_priv s + 1\<rparr>) of
                  (Some e, s') \<Rightarrow> (Some e, s')
                | (None, s') \<Rightarrow>
                    if is_scanning s' then start_repeat_scan (room - 1) s' else (None, s')))
          else (None, s))"
  by pat_completeness auto
termination
  by (relation "measure fst") auto

declare start_repeat_scan.simps [simp del]

text \<open>
  \<open>_start_auto_scan\<close> creates the timer if there is none and starts it with the interval
  in milliseconds; the timer's firing is not part of this model.
\<close>

definition start_auto_scan :: "DataAcquisition \<Rightarrow> py_exn option \<times> DataAcquisition" where
  "start_auto_scan s =
     (case current_scan s of
        None \<Rightarrow> (Some AttributeError, s)
      | Some cfg \<Rightarrow> (None, s\<lparr>auto_timer := Some (py_trunc (interval cfg * 1000))\<rparr>))"

definition start_scan ::
  "nat \<Rightarrow> ScanConfig \<Rightarrow> DataAcquisition \<Rightarrow> py_exn option \<times> DataAcquisition" where
  "start_scan room config s =
     (if is_scanning s then (None, s)
      else
        (let s' = s\<lparr>is_scanning := True, current_scan := Some config, scan_data := [],
                     scan_state := ''scanning'', repeat_count_priv := 0\<rparr>
         in if mode config = AUTO then start_auto_scan s'
            else if mode config = REPEAT then start_repeat_scan room s'
            else execute_single_scan s'))"

section \<open>data\_acquisition.py: peak detection\<close>

record SpectrumData =
  wavelengths :: "real list"
  intensities :: "real list"
  timestamp :: real

record PeakData =
  wavelength :: real
  intensity :: real
  fwhm :: real

text \<open>
  The samples are finite binary floating-point numbers. Each of them is a real number and
  the comparison of two of them is exact, while \<open>*\<close>, \<open>/\<close> and \<open>-\<close> round their result.
  The three arithmetic operations of \<open>detect_peaks\<close> are therefore parameters of the
  model; \<open>exact_ops\<close> are the operations of the real numbers. (\<open>nan\<close> and the infinities
  are outside the model.)
\<close>

record float_ops =
  fmul :: "real \<Rightarrow> real \<Rightarrow> real"
  fdiv :: "real \<Rightarrow> real \<Rightarrow> real"
  fsub :: "real \<Rightarrow> real \<Rightarrow> real"

definition exact_ops :: float_ops where
  "exact_ops = \<lparr>fmul = (\<lambda>a b. a * b), fdiv = (\<lambda>a b. a / b), fsub = (\<lambda>a b. a - b)\<rparr>"

text \<open>
  \<open>np.max\<close> raises on an empty array; indexing an array out of range raises. The model
  is of the value that \<open>detect_peaks\<close> returns; the signal \<open>peak_detected\<close> that it emits
  for each peak is left out.
\<close>

definition np_max :: "real list \<Rightarrow> py_exn + real" where
  "np_max xs = (case xs of [] \<Rightarrow> Inl (ValueError ''zero-size array to reduction operation maximum'')
                | x # r \<Rightarrow> Inr (fold max r x))"

definition np_get :: "real list \<Rightarrow> nat \<Rightarrow> py_exn + real" where
  "np_get xs i = (if i < length xs then Inr (xs ! i) else Inl IndexError)"

text \<open>
  The search for local maxima over \<open>range(1, len(intensities) - 1)\<close>. The indices given
  are inside the array with both neighbours; \<open>and\<close> evaluates \<open>np.max\<close> only when the
  two comparisons with the neighbours hold.
\<close>

fun find_peak_indices :: "float_ops \<Rightarrow> real list \<Rightarrow> real \<Rightarrow> nat list \<Rightarrow> py_exn + nat list" where
  "find_peak_indices ops ints threshold [] = Inr []"
| "find_peak_indices ops ints threshold (i # rest) =
     (if ints ! i > ints ! (i - 1) \<and> ints ! i > ints ! (i + 1) then
        (case np_max ints of
           Inl e \<Rightarrow> Inl e
         | Inr m \<Rightarrow>
             (case find_peak_indices ops ints threshold rest of
                Inl e \<Rightarrow> Inl e
              | Inr found \<Rightarrow> Inr (if ints ! i > fmul ops threshold m then i # found else found)))
      else find_peak_indices ops ints threshold rest)"

text \<open>The two walks outward from a peak, while the sample is above half the peak.\<close>

fun walk_left :: "real list \<Rightarrow> real \<Rightarrow> nat \<Rightarrow> nat" where
  "walk_left ints half_max 0 = 0"
| "walk_left ints half_max (Suc k) =
     (if ints ! Suc k > half_max then walk_left ints half_max k else Suc k)"

function walk_right :: "real list \<Rightarrow> real \<Rightarrow> nat \<Rightarrow> nat" where
  "walk_right ints half_max right_idx =
     (if right_idx < length ints - 1 \<and> ints ! right_idx > half_max
      then walk_right ints half_max (right_idx + 1) else right_idx)"
  by pat_completeness auto
termination
  by (relation "measure (\<lambda>(ints, half_max, right_idx). length ints - right_idx)") auto

declare walk_right.simps [simp del]

definition peak_at :: "float_ops \<Rightarrow> SpectrumData \<Rightarrow> nat \<Rightarrow> py_exn + PeakData" where
  "peak_at ops spectrum idx =
     (let ints = intensities spectrum;
          wls = wavelengths spectrum;
          half_max = fdiv ops (ints ! idx) 2;
          left_idx = walk_left ints half_max idx;
          right_idx = walk_right ints half_max idx
      in case np_get wls right_idx of
           Inl e \<Rightarrow> Inl e
         | Inr wr \<Rightarrow>
             (case np_get wls left_idx of
                Inl e \<Rightarrow> Inl e
              | Inr wl \<Rightarrow>
                  (case np_get wls idx of
                     Inl e \<Rightarrow> Inl e
                   | Inr w \<Rightarrow> Inr \<lparr>wavelength = w, intensity = ints ! idx, fwhm = fsub ops wr wl\<rparr>)))"

definition detect_peaks :: "float_ops \<Rightarrow> SpectrumData \<Rightarrow> real \<Rightarrow> py_exn + PeakData list" where
  "detect_peaks ops spectrum threshold =
     (let ints = intensities spectrum
      in case find_peak_indices ops ints threshold [1..<length ints - 1] of
           Inl e \<Rightarrow> Inl e
         | Inr peak_indices \<Rightarrow> collect (map (peak_at ops spectrum) peak_indices))"

section \<open>Properties of the protocol handler\<close>

lemma and_bit_test:
  "(code AND 1 \<noteq> 0) = bit (code::int) 0"
  "(code AND 2 \<noteq> 0) = bit code 1"
  "(code AND 4 \<noteq> 0) = bit code 2"
  "(code AND 8 \<noteq> 0) = bit code 3"
  using bit_iff_and_push_bit_not_eq_0 [of code 0] bit_iff_and_push_bit_not_eq_0 [of code 1]
    bit_iff_and_push_bit_not_eq_0 [of code 2] bit_iff_and_push_bit_not_eq_0 [of code 3]
  by (simp_all add: push_bit_eq_mult)

text \<open>
  Claim C4. Decoding a STAT payload reads the hexadecimal status code as a bit mask:
  bit 0 is \<open>ready\<close>, bit 1 is \<open>error\<close>, bit 2 is \<open>calibrating\<close> and bit 3 is
  \<open>measuring\<close>. The payload \<open>0F\<close> gives all four flags true, and \<open>01\<close> gives
  \<open>ready\<close> alone.
\<close>

theorem stat_decoding:
  "parse_payload ''STAT 0F'' = Status True True True True \<and>
   parse_payload ''STAT 01'' = Status True False False False \<and>
   (\<forall>data code. py_int 16 data = Inr code \<longrightarrow>
      parse_payload (''STAT '' @ data) = Status (bit code 0) (bit code 1) (bit code 2) (bit code 3))"
proof (intro conjI allI impI)
  show "parse_payload ''STAT 0F'' = Status True True True True" by code_simp
  show "parse_payload ''STAT 01'' = Status True False False False" by code_simp
next
  fix data code
  assume "py_int 16 data = Inr code"
  then show "parse_payload (''STAT '' @ data) = Status (bit code 0) (bit code 1) (bit code 2) (bit code 3)"
    by (simp add: parse_payload_def split_once_def and_bit_test)
qed

theorem stat_decoding_witness:
  "py_int 16 ''0A'' = Inr 10 \<and> parse_payload ''STAT 0A'' = Status False True False True"
proof -
  have h: "py_int 16 ''0A'' = Inr 10" by code_simp
  have b: "bit (10::int) 0 = False" "bit (10::int) 1 = True" "bit (10::int) 2 = False" "bit (10::int) 3 = True"
    by (simp_all add: bit_iff_odd)
  from stat_decoding have "py_int 16 ''0A'' = Inr 10 \<longrightarrow>
      parse_payload (''STAT '' @ ''0A'') = Status (bit (10::int) 0) (bit (10::int) 1) (bit (10::int) 2) (bit (10::int) 3)"
    by blast
  with h b show ?thesis by simp
qed

text \<open>
  Claim C1. Parsing a frame that \<open>build_command\<close> produced should give a valid response
  with the command's tag and the parameter. On the code it does not: \<open>parse_response\<close>
  drops the last three characters of the line, which for a built frame are the second
  checksum digit and the line ending, so the checksum it compares is the first digit
  alone. The frames built for \<open>set_wavelength\<close> with 500, for \<open>read_wavelength\<close> and for
  \<open>calibration\<close> with \<open>DARK\<close> are all answered with a checksum mismatch.
\<close>

theorem build_then_parse_rejected:
  "build_command ''set_wavelength'' [''value'' \<mapsto> PyInt 500] = Inr (''$WL 500*58'' @ [CR, LF]) \<and>
   parse_response (''$WL 500*58'' @ [CR, LF]) = Invalid (Text ''Checksum mismatch'') \<and>
   build_command ''read_wavelength'' Map.empty = Inr (''$WL?*E2'' @ [CR, LF]) \<and>
   parse_response (''$WL?*E2'' @ [CR, LF]) = Invalid (Text ''Checksum mismatch'') \<and>
   build_command ''calibration'' [''mode'' \<mapsto> PyStr ''DARK''] = Inr (''$CAL DARK*12'' @ [CR, LF]) \<and>
   parse_response (''$CAL DARK*12'' @ [CR, LF]) = Invalid (Text ''Checksum mismatch'')"
  by code_simp

section \<open>Properties of the communication manager\<close>

text \<open>
  Claim C10. While no connection is established (there is no communication thread, or
  the connected flag is off), \<open>send_command\<close> does nothing: the manager, with its
  thread's queue and the signals it has emitted, is unchanged, and nothing is raised.
\<close>

theorem send_command_disconnected:
  "comm_thread c = None \<or> \<not> connected_priv c \<Longrightarrow> send_command cmd_type kwargs c = (None, c)"
  by (auto simp: send_command_def split: option.splits)

theorem send_command_disconnected_witness:
  "(comm_thread AsyncCommunicator_init = None \<or> \<not> connected_priv AsyncCommunicator_init) \<and>
   send_command ''set_wavelength'' [''value'' \<mapsto> PyInt 500] AsyncCommunicator_init =
     (None, AsyncCommunicator_init)"
  using send_command_disconnected [of AsyncCommunicator_init "''set_wavelength''" "[''value'' \<mapsto> PyInt 500]"]
  by (simp add: AsyncCommunicator_init_def)

text \<open>The wire format of a frame: \<open>$payload*CC\r\n\<close>, with \<open>CC\<close> the checksum of the payload in two hexadecimal digits.\<close>

definition wire_frame :: "string \<Rightarrow> string" where
  "wire_frame payload = CHR ''$'' # payload @ CHR ''*'' # hex02X (checksum_of payload) @ [CR, LF]"

lemma build_command_template:
  "COMMAND_SET cmd_type = Some template \<Longrightarrow>
   build_command cmd_type kwargs =
     (case py_format template kwargs of Inl e \<Rightarrow> Inl e | Inr raw \<Rightarrow> Inr (wire_frame raw))"
  by (simp add: build_command_def wire_frame_def split: sum.splits)

lemma format_go_literal:
  "CHR ''{'' \<notin> set lit \<Longrightarrow> format_go lit None kw = Inr lit"
  by (induction lit) auto

lemma format_go_name:
  "CHR ''}'' \<notin> set nm \<Longrightarrow>
   format_go (nm @ ''}'') (Some acc) kw =
     (case kw (rev acc @ nm) of None \<Rightarrow> Inl (KeyError (rev acc @ nm)) | Some v \<Rightarrow> Inr (py_str v))"
  by (induction nm arbitrary: acc) (auto split: option.splits)

lemma py_format_field:
  "CHR ''{'' \<notin> set pre \<Longrightarrow> CHR ''}'' \<notin> set nm \<Longrightarrow>
   py_format (pre @ CHR ''{'' # nm @ ''}'') kw =
     (case kw nm of None \<Rightarrow> Inl (KeyError nm) | Some v \<Rightarrow> Inr (pre @ py_str v))"
  unfolding py_format_def
  by (induction pre) (auto simp: format_go_name split: option.splits)

lemma py_format_literal:
  "CHR ''{'' \<notin> set lit \<Longrightarrow> py_format lit kw = Inr lit"
  by (simp add: py_format_def format_go_literal)

lemma COMMAND_SET_entries:
  "COMMAND_SET ''set_wavelength'' = Some (''WL '' @ CHR ''{'' # ''value'' @ ''}'')"
  "COMMAND_SET ''set_integration'' = Some (''INTTIME '' @ CHR ''{'' # ''value'' @ ''}'')"
  "COMMAND_SET ''calibration'' = Some (''CAL '' @ CHR ''{'' # ''mode'' @ ''}'')"
  "COMMAND_SET ''set_average'' = Some (''AVG '' @ CHR ''{'' # ''value'' @ ''}'')"
  "COMMAND_SET ''read_wavelength'' = Some ''WL?''"
  "COMMAND_SET ''read_spectrum'' = Some ''SPT?''"
  "COMMAND_SET ''read_intensity'' = Some ''INT?''"
  "COMMAND_SET ''read_integration'' = Some ''INTTIME?''"
  "COMMAND_SET ''get_status'' = Some ''STAT?''"
  "COMMAND_SET ''read_average'' = Some ''AVG?''"
  "COMMAND_SET ''reset_device'' = Some ''RST''"
  "COMMAND_SET ''get_version'' = Some ''VER?''"
  by (simp_all add: COMMAND_SET_def)


lemma build_with_field:
  "COMMAND_SET cmd_type = Some (pre @ CHR ''{'' # nm @ ''}'') \<Longrightarrow>
   CHR ''{'' \<notin> set pre \<Longrightarrow> CHR ''}'' \<notin> set nm \<Longrightarrow>
   build_command cmd_type kwargs =
     (case kwargs nm of None \<Rightarrow> Inl (KeyError nm) | Some v \<Rightarrow> Inr (wire_frame (pre @ py_str v)))"
  using py_format_field [of pre nm kwargs]
  by (simp add: build_command_template split: option.splits)

lemma build_literal:
  "COMMAND_SET cmd_type = Some lit \<Longrightarrow> CHR ''{'' \<notin> set lit \<Longrightarrow>
   build_command cmd_type kwargs = Inr (wire_frame lit)"
  by (simp add: build_command_template py_format_literal)

text \<open>
  Claim C3, as amended. \<open>build_command\<close> has no check of a parameter's domain and no
  \<open>InvalidParameter\<close> error. A command type outside the catalog raises \<open>KeyError\<close> with
  that name; a command whose template has a field raises \<open>KeyError\<close> with the field's
  name when the keyword argument is absent, and otherwise encodes the text of whatever
  value was given; a command without a field is encoded whatever the arguments.
\<close>

theorem build_command_unchecked:
  "(COMMAND_SET cmd_type = None \<longrightarrow> build_command cmd_type kwargs = Inl (KeyError cmd_type)) \<and>
   build_command ''set_wavelength'' kwargs =
     (case kwargs ''value'' of None \<Rightarrow> Inl (KeyError ''value'')
      | Some v \<Rightarrow> Inr (wire_frame (''WL '' @ py_str v))) \<and>
   build_command ''set_integration'' kwargs =
     (case kwargs ''value'' of None \<Rightarrow> Inl (KeyError ''value'')
      | Some v \<Rightarrow> Inr (wire_frame (''INTTIME '' @ py_str v))) \<and>
   build_command ''calibration'' kwargs =
     (case kwargs ''mode'' of None \<Rightarrow> Inl (KeyError ''mode'')
      | Some v \<Rightarrow> Inr (wire_frame (''CAL '' @ py_str v))) \<and>
   build_command ''set_average'' kwargs =
     (case kwargs ''value'' of None \<Rightarrow> Inl (KeyError ''value'')
      | Some v \<Rightarrow> Inr (wire_frame (''AVG '' @ py_str v))) \<and>
   build_command ''read_wavelength'' kwargs = Inr (wire_frame ''WL?'') \<and>
   build_command ''read_spectrum'' kwargs = Inr (wire_frame ''SPT?'') \<and>
   build_command ''read_intensity'' kwargs = Inr (wire_frame ''INT?'') \<and>
   build_command ''read_integration'' kwargs = Inr (wire_frame ''INTTIME?'') \<and>
   build_command ''get_status'' kwargs = Inr (wire_frame ''STAT?'') \<and>
   build_command ''read_average'' kwargs = Inr (wire_frame ''AVG?'') \<and>
   build_command ''reset_device'' kwargs = Inr (wire_frame ''RST'') \<and>
   build_command ''get_version'' kwargs = Inr (wire_frame ''VER?'')"
proof (intro conjI impI)
  assume "COMMAND_SET cmd_type = None"
  then show "build_command cmd_type kwargs = Inl (KeyError cmd_type)"
    by (simp add: build_command_def)
next
  show "build_command ''set_wavelength'' kwargs =
     (case kwargs ''value'' of None \<Rightarrow> Inl (KeyError ''value'')
      | Some v \<Rightarrow> Inr (wire_frame (''WL '' @ py_str v)))"
    by (rule build_with_field [OF COMMAND_SET_entries(1)]) simp_all
  show "build_command ''set_integration'' kwargs =
     (case kwargs ''value'' of None \<Rightarrow> Inl (KeyError ''value'')
      | Some v \<Rightarrow> Inr (wire_frame (''INTTIME '' @ py_str v)))"
    by (rule build_with_field [OF COMMAND_SET_entries(2)]) simp_all
  show "build_command ''calibration'' kwargs =
     (case kwargs ''mode'' of None \<Rightarrow> Inl (KeyError ''mode'')
      | Some v \<Rightarrow> Inr (wire_frame (''CAL '' @ py_str v)))"
    by (rule build_with_field [OF COMMAND_SET_entries(3)]) simp_all
  show "build_command ''set_average'' kwargs =
     (case kwargs ''value'' of None \<Rightarrow> Inl (KeyError ''value'')
      | Some v \<Rightarrow> Inr (wire_frame (''AVG '' @ py_str v)))"
    by (rule build_with_field [OF COMMAND_SET_entries(4)]) simp_all
  show "build_command ''read_wavelength'' kwargs = Inr (wire_frame ''WL?'')"
    by (rule build_literal [OF COMMAND_SET_entries(5)]) simp
  show "build_command ''read_spectrum'' kwargs = Inr (wire_frame ''SPT?'')"
    by (rule build_literal [OF COMMAND_SET_entries(6)]) simp
  show "build_command ''read_intensity'' kwargs = Inr (wire_frame ''INT?'')"
    by (rule build_literal [OF COMMAND_SET_entries(7)]) simp
  show "build_command ''read_integration'' kwargs = Inr (wire_frame ''INTTIME?'')"
    by (rule build_literal [OF COMMAND_SET_entries(8)]) simp
  show "build_command ''get_status'' kwargs = Inr (wire_frame ''STAT?'')"
    by (rule build_literal [OF COMMAND_SET_entries(9)]) simp
  show "build_command ''read_average'' kwargs = Inr (wire_frame ''AVG?'')"
    by (rule build_literal [OF COMMAND_SET_entries(10)]) simp
  show "build_command ''reset_device'' kwargs = Inr (wire_frame ''RST'')"
    by (rule build_literal [OF COMMAND_SET_entries(11)]) simp
  show "build_command ''get_version'' kwargs = Inr (wire_frame ''VER?'')"
    by (rule build_literal [OF COMMAND_SET_entries(12)]) simp
qed

text \<open>
  Claim C3 as stated fails: a wavelength of 5000 nm and a calibration mode \<open>FOO\<close> are
  encoded into frames, and a missing value raises \<open>KeyError\<close>.
\<close>

theorem build_command_unchecked_counterexample:
  "build_command ''set_wavelength'' [''value'' \<mapsto> PyInt 5000] = Inr (''$WL 5000*88'' @ [CR, LF]) \<and>
   build_command ''calibration'' [''mode'' \<mapsto> PyStr ''FOO''] = Inr (''$CAL FOO*D4'' @ [CR, LF]) \<and>
   build_command ''set_wavelength'' Map.empty = Inl (KeyError ''value'')"
  by code_simp

theorem build_command_unchecked_witness:
  "COMMAND_SET ''set_gain'' = None \<and>
   build_command ''set_gain'' [''value'' \<mapsto> PyInt 5000] = Inl (KeyError ''set_gain'') \<and>
   build_command ''set_wavelength'' [''value'' \<mapsto> PyInt 5000] = Inr (wire_frame ''WL 5000'')"
proof -
  note t = build_command_unchecked [of "''set_gain''" "[''value'' \<mapsto> PyInt 5000]"]
  have a: "COMMAND_SET ''set_gain'' = None" by code_simp
  have b: "py_str (PyInt 5000) = ''5000''" by code_simp
  from t [THEN conjunct1] a
  have c: "build_command ''set_gain'' [''value'' \<mapsto> PyInt 5000] = Inl (KeyError ''set_gain'')"
    by simp
  from t [THEN conjunct2, THEN conjunct1] b
  have d: "build_command ''set_wavelength'' [''value'' \<mapsto> PyInt 5000] = Inr (wire_frame ''WL 5000'')"
    by simp
  from a c d show ?thesis by (intro conjI)
qed

section \<open>Properties of the scan controller\<close>

lemma scan_loop_trace:
  "is_scanning s \<Longrightarrow>
   scan_loop np pts s = s\<lparr>trace := trace s @ concat (map (point_events np) pts)\<rparr>"
  by (induction pts arbitrary: s) auto

lemma upt3: "[0..<3] = [0, 1, 2]"
  by (simp add: upt_rec)

lemma linspace_500_510: "linspace 500 510 3 = Inr [500, 505, 510]"
  by (simp add: linspace_def upt3)

text \<open>
  Claim C5. A single-mode scan from 500 to 510 in steps of 5, started while no scan is
  running, sends \<open>set_wavelength\<close> for 500, 505 and 510 in this order, each followed by
  \<open>read_intensity\<close> and then by the progress 1/3, 2/3 and 1, raises nothing, and ends
  with the scanning flag cleared. (The text attribute \<open>_scan_state\<close> keeps the value
  \<open>scanning\<close>: only the flag is reset by \<open>stop_scan\<close>.)
\<close>

theorem single_scan_500_510_5:
  assumes "\<not> is_scanning s"
  shows "start_scan room \<lparr>start_wavelength = 500, end_wavelength = 510, step_size = 5,
                           mode = SINGLE, repeat_count = n, interval = iv\<rparr> s =
         (None, s\<lparr>is_scanning := False,
                  current_scan := Some \<lparr>start_wavelength = 500, end_wavelength = 510, step_size = 5,
                                         mode = SINGLE, repeat_count = n, interval = iv\<rparr>,
                  scan_data := [], scan_state := ''scanning'', repeat_count_priv := 0,
                  trace := trace s @
                    [SendCommand ''set_wavelength'' [(''value'', 500)],
                     SendCommand ''read_intensity'' [], ScanProgress (1 / 3),
                     SendCommand ''set_wavelength'' [(''value'', 505)],
                     SendCommand ''read_intensity'' [], ScanProgress (2 / 3),
                     SendCommand ''set_wavelength'' [(''value'', 510)],
                     SendCommand ''read_intensity'' [], ScanProgress 1]\<rparr>)"
  using assms
  by (simp add: start_scan_def execute_single_scan_def py_trunc_def linspace_500_510 point_events_def
      handle_scan_complete_def stop_scan_def scan_loop_trace enumerate_eq_zip upt3)

theorem single_scan_500_510_5_witness:
  "\<not> is_scanning DataAcquisition_init \<and>
   start_scan 996 \<lparr>start_wavelength = 500, end_wavelength = 510, step_size = 5, mode = SINGLE,
                    repeat_count = 1, interval = 1\<rparr> DataAcquisition_init =
     (None, \<lparr>current_scan = Some \<lparr>start_wavelength = 500, end_wavelength = 510, step_size = 5,
                                     mode = SINGLE, repeat_count = 1, interval = 1\<rparr>,
              scan_data = [], is_scanning = False, scan_state = ''scanning'',
              repeat_count_priv = 0, auto_timer = None,
              trace = [SendCommand ''set_wavelength'' [(''value'', 500)],
                       SendCommand ''read_intensity'' [], ScanProgress (1 / 3),
                       SendCommand ''set_wavelength'' [(''value'', 505)],
                       SendCommand ''read_intensity'' [], ScanProgress (2 / 3),
                       SendCommand ''set_wavelength'' [(''value'', 510)],
                       SendCommand ''read_intensity'' [], ScanProgress 1]\<rparr>)"
  using single_scan_500_510_5 [of DataAcquisition_init 996 1 1]
  by (simp add: DataAcquisition_init_def)

text \<open>
  The number of points of a pass, as \<open>_execute_single_scan\<close> computes it, and what one pass
  of the point loop does for a configuration: for each wavelength of the range in order,
  the two commands and the progress signal.
\<close>

definition num_points :: "ScanConfig \<Rightarrow> int" where
  "num_points cfg = py_trunc ((end_wavelength cfg - start_wavelength cfg) / step_size cfg) + 1"





















section \<open>Properties of the peak detection\<close>

text \<open>
  A peak in the words of the specification: an index with both neighbours in the array
  whose sample is strictly greater than both of them and strictly greater than the
  threshold ratio times the maximum sample; and the indices selected, in ascending order.
\<close>

definition is_peak :: "float_ops \<Rightarrow> real list \<Rightarrow> real \<Rightarrow> nat \<Rightarrow> bool" where
  "is_peak ops ints threshold i \<longleftrightarrow>
     0 < i \<and> i + 1 < length ints \<and>
     ints ! (i - 1) < ints ! i \<and> ints ! (i + 1) < ints ! i \<and>
     fmul ops threshold (Max (set ints)) < ints ! i"

definition selected :: "float_ops \<Rightarrow> real list \<Rightarrow> real \<Rightarrow> nat list" where
  "selected ops ints threshold = filter (is_peak ops ints threshold) [0..<length ints]"

lemma np_max_Max:
  assumes "ints \<noteq> []"
  shows "np_max ints = Inr (Max (set ints))"
proof (cases ints)
  case Nil
  with assms show ?thesis by simp
next
  case (Cons a list)
  then show ?thesis
    using Max.set_eq_fold [of a list] by (simp add: np_max_def)
qed

lemma find_peak_indices_filter:
  "(\<And>i. i \<in> set idxs \<Longrightarrow> 0 < i \<and> i + 1 < length ints) \<Longrightarrow>
   find_peak_indices ops ints threshold idxs = Inr (filter (is_peak ops ints threshold) idxs)"
proof (induction idxs)
  case Nil
  show ?case by simp
next
  case (Cons i rest)
  have i: "0 < i" "i + 1 < length ints" using Cons.prems [of i] by simp_all
  then have ne: "ints \<noteq> []" by auto
  have rest: "find_peak_indices ops ints threshold rest = Inr (filter (is_peak ops ints threshold) rest)"
    using Cons.prems by (intro Cons.IH) simp
  have hd: "is_peak ops ints threshold i \<longleftrightarrow>
      ints ! (i - 1) < ints ! i \<and> ints ! (i + 1) < ints ! i \<and>
      fmul ops threshold (Max (set ints)) < ints ! i"
    using i by (simp add: is_peak_def)
  show ?case
    by (simp add: rest np_max_Max [OF ne] hd)
qed

lemma selected_range:
  "filter (is_peak ops ints threshold) [1..<length ints - 1] = selected ops ints threshold"
  unfolding selected_def
proof (rule strict_sorted_equal)
  show "sorted_wrt (<) (filter (is_peak ops ints threshold) [0..<length ints])"
    by (rule sorted_wrt_filter) simp
  show "sorted_wrt (<) (filter (is_peak ops ints threshold) [1..<length ints - 1])"
    by (rule sorted_wrt_filter) simp
  show "set (filter (is_peak ops ints threshold) [1..<length ints - 1]) =
        set (filter (is_peak ops ints threshold) [0..<length ints])"
    by (auto simp: is_peak_def)
qed

lemma find_peak_indices_selected:
  "find_peak_indices ops ints threshold [1..<length ints - 1] = Inr (selected ops ints threshold)"
proof -
  have "find_peak_indices ops ints threshold [1..<length ints - 1] =
        Inr (filter (is_peak ops ints threshold) [1..<length ints - 1])"
    by (rule find_peak_indices_filter) auto
  then show ?thesis by (simp only: selected_range)
qed

lemma detect_peaks_selected:
  "detect_peaks ops sp threshold =
     collect (map (peak_at ops sp) (selected ops (intensities sp) threshold))"
  by (simp only: detect_peaks_def Let_def find_peak_indices_selected sum.case)

lemma walk_left_le: "walk_left ints h idx \<le> idx"
  by (induction idx) auto

lemma walk_right_bounds:
  "idx \<le> walk_right ints h idx \<and> (idx < length ints \<longrightarrow> walk_right ints h idx < length ints)"
proof (induction ints h idx rule: walk_right.induct)
  case (1 ints h idx)
  show ?case
  proof (cases "idx < length ints - 1 \<and> ints ! idx > h")
    case True
    then show ?thesis
      using 1 by (subst (1 2) walk_right.simps) auto
  next
    case False
    then show ?thesis
      by (subst (1 2) walk_right.simps) auto
  qed
qed

lemma peak_at_ok:
  assumes "is_peak ops (intensities sp) threshold idx"
    "length (intensities sp) \<le> length (wavelengths sp)"
  shows "peak_at ops sp idx =
     Inr \<lparr>wavelength = wavelengths sp ! idx, intensity = intensities sp ! idx,
          fwhm = fsub ops
            (wavelengths sp ! walk_right (intensities sp) (fdiv ops (intensities sp ! idx) 2) idx)
            (wavelengths sp ! walk_left (intensities sp) (fdiv ops (intensities sp ! idx) 2) idx)\<rparr>"
proof -
  let ?ints = "intensities sp"
  let ?h = "fdiv ops (?ints ! idx) 2"
  have idx: "idx < length ?ints" using assms(1) by (simp add: is_peak_def)
  have l: "walk_left ?ints ?h idx < length (wavelengths sp)"
    using walk_left_le [of ?ints ?h idx] idx assms(2) by simp
  have r: "walk_right ?ints ?h idx < length (wavelengths sp)"
    using walk_right_bounds [of idx ?ints ?h] idx assms(2) by simp
  show ?thesis
    using l r idx assms(2) by (simp add: peak_at_def np_get_def Let_def)
qed

lemma collect_map_ok:
  "(\<And>x. x \<in> set xs \<Longrightarrow> f x = Inr (g x)) \<Longrightarrow> collect (map f xs) = Inr (map g xs)"
  by (induction xs) simp_all

lemma collect_Inr_mem:
  "collect rs = Inr ps \<Longrightarrow> p \<in> set ps \<Longrightarrow> Inr p \<in> set rs"
proof (induction rs arbitrary: ps)
  case Nil
  then show ?case by simp
next
  case (Cons r rs)
  then show ?case
    by (cases r; cases "collect rs") auto
qed

lemma monotonic_no_peak:
  assumes "sorted_wrt (<) ints \<or> sorted_wrt (>) ints"
  shows "\<not> is_peak ops ints threshold i"
proof
  assume p: "is_peak ops ints threshold i"
  then have i: "0 < i" "i + 1 < length ints" "ints ! (i - 1) < ints ! i" "ints ! (i + 1) < ints ! i"
    by (simp_all add: is_peak_def)
  from assms show False
  proof
    assume "sorted_wrt (<) ints"
    then have "ints ! i < ints ! (i + 1)"
      using sorted_wrt_nth_less [of "(<)" ints i "i + 1"] i by simp
    with i show False by simp
  next
    assume "sorted_wrt (>) ints"
    then have "ints ! (i - 1) > ints ! i"
      using sorted_wrt_nth_less [of "(>)" ints "i - 1" i] i by simp
    with i show False by simp
  qed
qed

lemma selected_monotonic:
  "ints = [] \<or> sorted_wrt (<) ints \<or> sorted_wrt (>) ints \<Longrightarrow> selected ops ints threshold = []"
  by (auto simp: selected_def filter_empty_conv monotonic_no_peak)

text \<open>
  Claim C8. For every spectrum and threshold ratio, the search selects exactly the indices
  that are peaks in the sense above, so never the first nor the last index, in ascending
  order, and \<open>detect_peaks\<close> computes the peaks of these indices in that order. When the
  spectrum has a wavelength for every intensity, the peaks are returned with the wavelength
  and the intensity of their indices. An empty or strictly monotonic input gives the empty
  list and no error.
\<close>

theorem peak_selection:
  "find_peak_indices ops (intensities sp) threshold [1..<length (intensities sp) - 1] =
     Inr (selected ops (intensities sp) threshold) \<and>
   (\<forall>i. i \<in> set (selected ops (intensities sp) threshold) \<longleftrightarrow>
        is_peak ops (intensities sp) threshold i) \<and>
   0 \<notin> set (selected ops (intensities sp) threshold) \<and>
   length (intensities sp) - 1 \<notin> set (selected ops (intensities sp) threshold) \<and>
   sorted_wrt (<) (selected ops (intensities sp) threshold) \<and>
   detect_peaks ops sp threshold =
     collect (map (peak_at ops sp) (selected ops (intensities sp) threshold)) \<and>
   (length (intensities sp) \<le> length (wavelengths sp) \<longrightarrow>
      (\<exists>ps. detect_peaks ops sp threshold = Inr ps \<and>
            map wavelength ps = map (\<lambda>i. wavelengths sp ! i) (selected ops (intensities sp) threshold) \<and>
            map intensity ps = map (\<lambda>i. intensities sp ! i) (selected ops (intensities sp) threshold))) \<and>
   (intensities sp = [] \<or> sorted_wrt (<) (intensities sp) \<or> sorted_wrt (>) (intensities sp) \<longrightarrow>
      detect_peaks ops sp threshold = Inr [])"
proof (intro conjI impI allI)
  let ?ints = "intensities sp"
  let ?sel = "selected ops ?ints threshold"
  show "find_peak_indices ops ?ints threshold [1..<length ?ints - 1] = Inr ?sel"
    by (rule find_peak_indices_selected)
  show "i \<in> set ?sel \<longleftrightarrow> is_peak ops ?ints threshold i" for i
    by (auto simp: selected_def is_peak_def)
  show "0 \<notin> set ?sel"
    by (simp add: selected_def is_peak_def)
  show "length ?ints - 1 \<notin> set ?sel"
    by (cases "?ints") (simp_all add: selected_def is_peak_def)
  show "sorted_wrt (<) ?sel"
    unfolding selected_def by (rule sorted_wrt_filter) simp
  show "detect_peaks ops sp threshold = collect (map (peak_at ops sp) ?sel)"
    by (rule detect_peaks_selected)
  {
    assume len: "length ?ints \<le> length (wavelengths sp)"
    let ?g = "\<lambda>idx. \<lparr>wavelength = wavelengths sp ! idx, intensity = ?ints ! idx,
          fwhm = fsub ops
            (wavelengths sp ! walk_right ?ints (fdiv ops (?ints ! idx) 2) idx)
            (wavelengths sp ! walk_left ?ints (fdiv ops (?ints ! idx) 2) idx)\<rparr>"
    have "collect (map (peak_at ops sp) ?sel) = Inr (map ?g ?sel)"
    proof (rule collect_map_ok)
      fix x assume "x \<in> set ?sel"
      then have "is_peak ops ?ints threshold x" by (simp add: selected_def)
      then show "peak_at ops sp x = Inr (?g x)" using len by (rule peak_at_ok)
    qed
    then have "detect_peaks ops sp threshold = Inr (map ?g ?sel)"
      by (simp only: detect_peaks_selected)
    then show "\<exists>ps. detect_peaks ops sp threshold = Inr ps \<and>
            map wavelength ps = map (\<lambda>i. wavelengths sp ! i) ?sel \<and>
            map intensity ps = map (\<lambda>i. ?ints ! i) ?sel"
      by (simp add: comp_def)
  }
  {
    assume "?ints = [] \<or> sorted_wrt (<) ?ints \<or> sorted_wrt (>) ?ints"
    then have "?sel = []" by (rule selected_monotonic)
    then show "detect_peaks ops sp threshold = Inr []"
      by (simp add: detect_peaks_selected)
  }
qed


lemma walk_right_step:
  "right_idx < length ints - 1 \<Longrightarrow> ints ! right_idx > half_max \<Longrightarrow>
   walk_right ints half_max right_idx = walk_right ints half_max (right_idx + 1)"
  by (subst walk_right.simps) simp

lemma walk_right_stop:
  "\<not> (right_idx < length ints - 1 \<and> ints ! right_idx > half_max) \<Longrightarrow>
   walk_right ints half_max right_idx = right_idx"
  by (subst walk_right.simps) auto

lemma exact_ops_simps:
  "fmul exact_ops a b = a * b" "fdiv exact_ops a b = a / b" "fsub exact_ops a b = a - b"
  by (simp_all add: exact_ops_def)

lemma selected_example:
  "selected exact_ops [0, 1, 5, 1, 0] (1 / 10) = [2]"
  by (simp add: selected_def is_peak_def exact_ops_simps)

lemma walks_example:
  "walk_left [0, 1, 5, 1, 0] (5 / 2) 2 = 1" "walk_right [0, 1, 5, 1, 0] (5 / 2) 2 = 3"
  by (simp_all add: numeral_2_eq_2 walk_right_step walk_right_stop)

lemma detect_peaks_example:
  "detect_peaks exact_ops
     \<lparr>wavelengths = [400, 401, 402, 403, 404], intensities = [0, 1, 5, 1, 0], timestamp = t\<rparr>
     (1 / 10) =
   Inr [\<lparr>wavelength = 402, intensity = 5, fwhm = 2\<rparr>]"
  using walks_example
  by (simp add: detect_peaks_selected selected_example peak_at_def np_get_def exact_ops_simps)

theorem peak_selection_witness:
  "length [0, 1, 5, 1, 0::real] \<le> length [400, 401, 402, 403, 404::real] \<and>
   selected exact_ops [0, 1, 5, 1, 0] (1 / 10) = [2] \<and>
   detect_peaks exact_ops
     \<lparr>wavelengths = [400, 401, 402, 403, 404], intensities = [0, 1, 5, 1, 0], timestamp = 0\<rparr>
     (1 / 10) = Inr [\<lparr>wavelength = 402, intensity = 5, fwhm = 2\<rparr>] \<and>
   sorted_wrt (<) [1, 2, 3::real] \<and>
   detect_peaks exact_ops
     \<lparr>wavelengths = [400, 401, 402], intensities = [1, 2, 3], timestamp = 0\<rparr> (1 / 10) = Inr [] \<and>
   detect_peaks exact_ops \<lparr>wavelengths = [], intensities = [], timestamp = 0\<rparr> (1 / 10) = Inr []"
  using
    peak_selection [of exact_ops
      "\<lparr>wavelengths = [400, 401, 402, 403, 404], intensities = [0, 1, 5, 1, 0], timestamp = 0\<rparr>"
      "1 / 10"]
    peak_selection [of exact_ops
      "\<lparr>wavelengths = [400, 401, 402], intensities = [1, 2, 3], timestamp = 0\<rparr>" "1 / 10"]
    peak_selection [of exact_ops "\<lparr>wavelengths = [], intensities = [], timestamp = 0\<rparr>" "1 / 10"]
  by (simp add: selected_example detect_peaks_example)

text \<open>
  Where a walk outward from a peak stops: at the first sample at or below half the peak,
  or at the end of the array when every sample up to it is above half the peak.
\<close>

definition stops_left :: "real list \<Rightarrow> real \<Rightarrow> nat \<Rightarrow> nat \<Rightarrow> bool" where
  "stops_left ints half_max idx l \<longleftrightarrow>
     l \<le> idx \<and> (\<forall>j\<in>{l<..idx}. half_max < ints ! j) \<and> (l = 0 \<or> ints ! l \<le> half_max)"

definition stops_right :: "real list \<Rightarrow> real \<Rightarrow> nat \<Rightarrow> nat \<Rightarrow> bool" where
  "stops_right ints half_max idx r \<longleftrightarrow>
     idx \<le> r \<and> r < length ints \<and> (\<forall>j\<in>{idx..<r}. half_max < ints ! j) \<and>
     (r = length ints - 1 \<or> ints ! r \<le> half_max)"

lemma walk_left_stops: "stops_left ints h idx (walk_left ints h idx)"
proof (induction idx)
  case 0
  show ?case by (simp add: stops_left_def)
next
  case (Suc k)
  show ?case
  proof (cases "ints ! Suc k > h")
    case True
    have "{walk_left ints h k<..Suc k} = insert (Suc k) {walk_left ints h k<..k}"
      using walk_left_le [of ints h k] by auto
    with True Suc show ?thesis by (simp add: stops_left_def)
  next
    case False
    then show ?thesis by (simp add: stops_left_def)
  qed
qed

lemma walk_right_stops:
  "idx < length ints \<Longrightarrow> stops_right ints h idx (walk_right ints h idx)"
proof (induction ints h idx rule: walk_right.induct)
  case (1 ints h idx)
  show ?case
  proof (cases "idx < length ints - 1 \<and> ints ! idx > h")
    case True
    then have "idx + 1 < length ints" by linarith
    with True have nxt: "stops_right ints h (idx + 1) (walk_right ints h (idx + 1))"
      by (intro 1(1)) simp_all
    have eq: "walk_right ints h idx = walk_right ints h (idx + 1)"
      using True by (simp add: walk_right_step)
    have "{idx..<walk_right ints h (idx + 1)} = insert idx {idx + 1..<walk_right ints h (idx + 1)}"
      using walk_right_bounds [of "idx + 1" ints h] by auto
    with nxt True show ?thesis
      by (simp add: eq stops_right_def)
  next
    case False
    then have eq: "walk_right ints h idx = idx" by (rule walk_right_stop)
    from False 1(2) show ?thesis
      by (auto simp: eq stops_right_def)
  qed
qed

lemma stops_left_unique:
  assumes "stops_left ints h idx l" "stops_left ints h idx l'"
  shows "l = l'"
proof (rule ccontr)
  assume "l \<noteq> l'"
  then consider "l < l'" | "l' < l" by linarith
  then show False
  proof cases
    case 1
    with assms have "h < ints ! l'" "ints ! l' \<le> h"
      by (auto simp: stops_left_def)
    then show False by simp
  next
    case 2
    with assms have "h < ints ! l" "ints ! l \<le> h"
      by (auto simp: stops_left_def)
    then show False by simp
  qed
qed

lemma stops_right_unique:
  assumes "stops_right ints h idx r" "stops_right ints h idx r'"
  shows "r = r'"
proof (rule ccontr)
  assume "r \<noteq> r'"
  then consider "r < r'" | "r' < r" by linarith
  then show False
  proof cases
    case 1
    with assms have "h < ints ! r" "ints ! r \<le> h"
      by (auto simp: stops_right_def)
    then show False by simp
  next
    case 2
    with assms have "h < ints ! r'" "ints ! r' \<le> h"
      by (auto simp: stops_right_def)
    then show False by simp
  qed
qed

lemma peak_at_Inr:
  "peak_at ops sp idx = Inr p \<Longrightarrow>
   p = \<lparr>wavelength = wavelengths sp ! idx, intensity = intensities sp ! idx,
        fwhm = fsub ops
          (wavelengths sp ! walk_right (intensities sp) (fdiv ops (intensities sp ! idx) 2) idx)
          (wavelengths sp ! walk_left (intensities sp) (fdiv ops (intensities sp ! idx) 2) idx)\<rparr>"
  by (auto simp: peak_at_def Let_def np_get_def split: if_splits)

text \<open>
  Claim C9, as amended. For every peak that \<open>detect_peaks\<close> returns, the reported width is
  the difference of the wavelengths at the two stopping indices of the walks outward from
  the peak's index, where the walk to the left stops at the first sample at or below half
  the peak intensity, or at index 0 when no sample before it is, and the walk to the right
  stops at the first such sample, or at the last index. The peak carries the wavelength
  and the intensity of its index.
\<close>

theorem fwhm_between_stops:
  assumes "detect_peaks ops sp threshold = Inr ps" "p \<in> set ps"
  shows "\<exists>idx l r.
     is_peak ops (intensities sp) threshold idx \<and>
     l = walk_left (intensities sp) (fdiv ops (intensities sp ! idx) 2) idx \<and>
     r = walk_right (intensities sp) (fdiv ops (intensities sp ! idx) 2) idx \<and>
     (\<forall>l'. stops_left (intensities sp) (fdiv ops (intensities sp ! idx) 2) idx l' \<longleftrightarrow> l' = l) \<and>
     (\<forall>r'. stops_right (intensities sp) (fdiv ops (intensities sp ! idx) 2) idx r' \<longleftrightarrow> r' = r) \<and>
     wavelength p = wavelengths sp ! idx \<and> intensity p = intensities sp ! idx \<and>
     fwhm p = fsub ops (wavelengths sp ! r) (wavelengths sp ! l)"
proof -
  let ?ints = "intensities sp"
  from assms have "Inr p \<in> set (map (peak_at ops sp) (selected ops ?ints threshold))"
    by (simp only: detect_peaks_selected collect_Inr_mem)
  then obtain idx where sel: "idx \<in> set (selected ops ?ints threshold)"
    and pk: "peak_at ops sp idx = Inr p"
    by auto
  let ?h = "fdiv ops (?ints ! idx) 2"
  from sel have ip: "is_peak ops ?ints threshold idx" by (simp add: selected_def)
  then have idx: "idx < length ?ints" by (simp add: is_peak_def)
  have sl: "stops_left ?ints ?h idx (walk_left ?ints ?h idx)" by (rule walk_left_stops)
  have sr: "stops_right ?ints ?h idx (walk_right ?ints ?h idx)" using idx by (rule walk_right_stops)
  have ul: "stops_left ?ints ?h idx l' \<longleftrightarrow> l' = walk_left ?ints ?h idx" for l'
    using sl stops_left_unique by blast
  have ur: "stops_right ?ints ?h idx r' \<longleftrightarrow> r' = walk_right ?ints ?h idx" for r'
    using sr stops_right_unique by blast
  from peak_at_Inr [OF pk] have p: "wavelength p = wavelengths sp ! idx"
    "intensity p = ?ints ! idx"
    "fwhm p = fsub ops (wavelengths sp ! walk_right ?ints ?h idx)
                        (wavelengths sp ! walk_left ?ints ?h idx)"
    by simp_all
  from ip ul ur p show ?thesis by blast
qed

lemma detect_peaks_boundary:
  "detect_peaks exact_ops
     \<lparr>wavelengths = [400, 401, 402], intensities = [3, 5, 3], timestamp = 0\<rparr> (1 / 10) =
   Inr [\<lparr>wavelength = 401, intensity = 5, fwhm = 2\<rparr>] \<and>
   walk_left [3, 5, 3] (5 / 2) 1 = 0 \<and> walk_right [3, 5, 3] (5 / 2) 1 = 2"
proof -
  have w: "walk_left [3, 5, 3] (5 / 2) 1 = 0" "walk_right [3, 5, 3] (5 / 2) 1 = 2"
    by (simp_all add: walk_right_step walk_right_stop)
  have s: "selected exact_ops [3, 5, 3] (1 / 10) = [1]"
    by (simp add: selected_def is_peak_def exact_ops_simps)
  show ?thesis
    using w by (simp add: detect_peaks_selected s peak_at_def np_get_def exact_ops_simps)
qed

text \<open>
  Claim C9 as stated fails: for the intensities 3, 5, 3 both walks stop at the ends of
  the array, on samples that are above half the peak, and the width is the whole range.
\<close>

theorem fwhm_between_stops_counterexample:
  "detect_peaks exact_ops
     \<lparr>wavelengths = [400, 401, 402], intensities = [3, 5, 3], timestamp = 0\<rparr> (1 / 10) =
   Inr [\<lparr>wavelength = 401, intensity = 5, fwhm = 2\<rparr>] \<and>
   walk_left [3, 5, 3] (5 / 2) 1 = 0 \<and> walk_right [3, 5, 3] (5 / 2) 1 = 2 \<and>
   \<not> [3, 5, 3] ! 0 \<le> (5 / 2 :: real) \<and> \<not> [3, 5, 3] ! 2 \<le> (5 / 2 :: real)"
  using detect_peaks_boundary by simp

text \<open>
  The example of the claim: for 0, 1, 5, 1, 0 over 400 to 404 the walks from the peak at
  402 stop at the first samples at or below 2.5, at 401 and 403.
\<close>

theorem fwhm_between_stops_witness:
  "detect_peaks exact_ops
     \<lparr>wavelengths = [400, 401, 402, 403, 404], intensities = [0, 1, 5, 1, 0], timestamp = 0\<rparr>
     (1 / 10) = Inr [\<lparr>wavelength = 402, intensity = 5, fwhm = 2\<rparr>] \<and>
   walk_left [0, 1, 5, 1, 0] (5 / 2) 2 = 1 \<and> walk_right [0, 1, 5, 1, 0] (5 / 2) 2 = 3 \<and>
   [0, 1, 5, 1, 0] ! 1 \<le> (5 / 2 :: real) \<and> [0, 1, 5, 1, 0] ! 3 \<le> (5 / 2 :: real) \<and>
   (\<exists>idx. is_peak exact_ops [0, 1, 5, 1, 0] (1 / 10) idx \<and>
      (\<forall>l'. stops_left [0, 1, 5, 1, 0] (fdiv exact_ops ([0, 1, 5, 1, 0] ! idx) 2) idx l' \<longleftrightarrow>
             l' = walk_left [0, 1, 5, 1, 0] (fdiv exact_ops ([0, 1, 5, 1, 0] ! idx) 2) idx) \<and>
      (\<forall>r'. stops_right [0, 1, 5, 1, 0] (fdiv exact_ops ([0, 1, 5, 1, 0] ! idx) 2) idx r' \<longleftrightarrow>
             r' = walk_right [0, 1, 5, 1, 0] (fdiv exact_ops ([0, 1, 5, 1, 0] ! idx) 2) idx) \<and>
      (402::real) = [400, 401, 402, 403, 404] ! idx \<and> (5::real) = [0, 1, 5, 1, 0] ! idx \<and>
      (2::real) = fsub exact_ops
         ([400, 401, 402, 403, 404] ! walk_right [0, 1, 5, 1, 0] (fdiv exact_ops ([0, 1, 5, 1, 0] ! idx) 2) idx)
         ([400, 401, 402, 403, 404] ! walk_left [0, 1, 5, 1, 0] (fdiv exact_ops ([0, 1, 5, 1, 0] ! idx) 2) idx))"
proof -
  let ?sp = "\<lparr>wavelengths = [400, 401, 402, 403, 404], intensities = [0, 1, 5, 1, 0], timestamp = 0\<rparr>"
  let ?p = "\<lparr>wavelength = 402, intensity = 5, fwhm = 2\<rparr>"
  have a: "detect_peaks exact_ops ?sp (1 / 10) = Inr [?p]" by (rule detect_peaks_example)
  have b: "?p \<in> set [?p]" by simp
  from fwhm_between_stops [OF a b] have c: "\<exists>idx.
      is_peak exact_ops [0, 1, 5, 1, 0] (1 / 10) idx \<and>
      (\<forall>l'. stops_left [0, 1, 5, 1, 0] (fdiv exact_ops ([0, 1, 5, 1, 0] ! idx) 2) idx l' \<longleftrightarrow>
             l' = walk_left [0, 1, 5, 1, 0] (fdiv exact_ops ([0, 1, 5, 1, 0] ! idx) 2) idx) \<and>
      (\<forall>r'. stops_right [0, 1, 5, 1, 0] (fdiv exact_ops ([0, 1, 5, 1, 0] ! idx) 2) idx r' \<longleftrightarrow>
             r' = walk_right [0, 1, 5, 1, 0] (fdiv exact_ops ([0, 1, 5, 1, 0] ! idx) 2) idx) \<and>
      (402::real) = [400, 401, 402, 403, 404] ! idx \<and> (5::real) = [0, 1, 5, 1, 0] ! idx \<and>
      (2::real) = fsub exact_ops
         ([400, 401, 402, 403, 404] ! walk_right [0, 1, 5, 1, 0] (fdiv exact_ops ([0, 1, 5, 1, 0] ! idx) 2) idx)
         ([400, 401, 402, 403, 404] ! walk_left [0, 1, 5, 1, 0] (fdiv exact_ops ([0, 1, 5, 1, 0] ! idx) 2) idx)"
    by simp
  have d: "[0, 1, 5, 1, 0] ! 1 \<le> (5 / 2 :: real)" "[0, 1, 5, 1, 0] ! 3 \<le> (5 / 2 :: real)"
    by (simp_all add: numeral_3_eq_3)
  from a walks_example d c show ?thesis by blast
qed

section \<open>Properties of the response parser\<close>














end
